theory Spec2Isabelle
  imports Main "HOL-Library.Sublist" "HOL-Library.AList" "HOL-Library.Log_Nat"
begin

section \<open>The price tracker \<^verbatim>\<open>track_squishmallows.py\<close>\<close>

text \<open>
  A Python \<^verbatim>\<open>str\<close> is modelled as a \<^typ>\<open>string\<close>, one \<^typ>\<open>char\<close> for each code point;
  code points above 255 are outside the model. On the modelled range the regular
  expression class \<^verbatim>\<open>\d\<close> is exactly the ten ASCII digits.
\<close>

subsection \<open>Configuration constants\<close>

definition SEARCH_URL :: string where
  "SEARCH_URL = ''https://www.frysfood.com/q/squishmallow''"

definition STATE_FILE :: string where
  "STATE_FILE = ''last_prices.json''"

definition SMALL_SIZES :: "string list" where
  "SMALL_SIZES = [''2.5 in'', ''4 in'', ''5 in'', ''6 in'', ''7 in'', ''8 in'']"

definition SMTP_SERVER :: string where
  "SMTP_SERVER = ''smtp.gmail.com''"

definition SMTP_PORT :: nat where
  "SMTP_PORT = 587"

subsection \<open>Strings\<close>

text \<open>
  Python's \<^verbatim>\<open>needle in hay\<close> on strings: the needle occurs at some position of the
  haystack. The scan tries every start position from the left.
\<close>

fun str_in :: "string \<Rightarrow> string \<Rightarrow> bool" where
  "str_in needle [] = (needle = [])"
| "str_in needle (c # cs) = (prefix needle (c # cs) \<or> str_in needle cs)"

text \<open>\<^verbatim>\<open>is_small_size\<close>: the first label of \<^verbatim>\<open>SMALL_SIZES\<close> found in the text.\<close>

fun first_size :: "string list \<Rightarrow> string \<Rightarrow> string option" where
  "first_size [] text = None"
| "first_size (sz # sizes) text =
     (if str_in sz text then Some sz else first_size sizes text)"

definition is_small_size :: "string \<Rightarrow> string option" where
  "is_small_size text = first_size SMALL_SIZES text"

text \<open>
  The keyword test of \<^verbatim>\<open>scrape_items\<close>: the block is skipped when
  \<^verbatim>\<open>"Squishmallow" not in text and "Squishmallows" not in text\<close>.
\<close>

definition keyword_skip :: "string \<Rightarrow> bool" where
  "keyword_skip text \<longleftrightarrow>
     \<not> str_in ''Squishmallow'' text \<and> \<not> str_in ''Squishmallows'' text"

subsection \<open>Prices\<close>

text \<open>
  A Python \<^verbatim>\<open>float\<close>. A finite double is represented by the rational number it denotes
  (the two zeros are one value: they compare equal); comparison of finite values is then
  exact. JSON integers, which Python compares numerically with floats, are finite values
  too.
\<close>

datatype pyfloat = Finite rat | PosInf | NegInf | NaN

text \<open>Python's \<^verbatim>\<open>a != b\<close> on numbers: a NaN is unequal to everything, itself included.\<close>

definition py_ne :: "pyfloat \<Rightarrow> pyfloat \<Rightarrow> bool" where
  "py_ne a b \<longleftrightarrow> a = NaN \<or> b = NaN \<or> a \<noteq> b"

definition pow2 :: "int \<Rightarrow> rat" where
  "pow2 k = (if 0 \<le> k then 2 ^ nat k else 1 / 2 ^ nat (- k))"

text \<open>
  Rounding of a non-negative rational to the nearest double, ties to even, for values
  that are zero or at least \<open>2\<^sup>-\<^sup>1\<^sup>0\<^sup>2\<^sup>2\<close> (every non-zero amount with two decimals is at
  least \<open>1/100\<close>): \<open>e\<close> is the binary exponent, \<open>m\<close> the value scaled to a 53-bit
  significand; a result of \<open>2\<^sup>1\<^sup>0\<^sup>2\<^sup>4\<close> or more overflows to infinity.
\<close>

definition round_double :: "rat \<Rightarrow> pyfloat" where
  "round_double q =
     (if q = 0 then Finite 0
      else
        let (a, b) = quotient_of q;
            k = bitlen a - bitlen b;
            e = (if pow2 k \<le> q then k else k - 1);
            m = q / pow2 (e - 52);
            f = \<lfloor>m\<rfloor>;
            r = m - of_int f;
            M = (if r < 1 / 2 then f
                 else if 1 / 2 < r then f + 1
                 else if even f then f else f + 1);
            v = of_int M * pow2 (e - 52)
        in if pow2 1024 \<le> v then PosInf else Finite v)"

definition is_digit :: "char \<Rightarrow> bool" where
  "is_digit c \<longleftrightarrow> c \<in> set ''0123456789''"

definition digit_value :: "char \<Rightarrow> nat" where
  "digit_value c = of_char c - 48"

definition nat_of_digits :: "string \<Rightarrow> nat" where
  "nat_of_digits ds = foldl (\<lambda>n c. 10 * n + digit_value c) 0 ds"

text \<open>
  \<^verbatim>\<open>float(s)\<close> for a string of the form digits, point, digits: the only strings that
  \<^verbatim>\<open>parse_price\<close> passes to it.
\<close>

definition py_float :: "string \<Rightarrow> pyfloat" where
  "py_float s =
     (let ip = takeWhile (\<lambda>c. c \<noteq> CHR ''.'') s;
          fp = drop 1 (dropWhile (\<lambda>c. c \<noteq> CHR ''.'') s)
      in round_double
           (of_nat (nat_of_digits ip) + of_nat (nat_of_digits fp) / 10 ^ length fp))"

text \<open>
  The pattern \<^verbatim>\<open>\$([\d]+\.\d{2})\<close> tried at the head of the text: a dollar sign, the
  longest run of digits (one at least), a point and two digits. The result is group 1.
  Giving back digits of the greedy run cannot help: the character after a shorter run is
  a digit, not the point.
\<close>

definition match_price_at :: "string \<Rightarrow> string option" where
  "match_price_at s =
     (case s of
        [] \<Rightarrow> None
      | c # rest \<Rightarrow>
          if c = CHR ''$'' then
            (let ds = takeWhile is_digit rest in
             if ds = [] then None
             else
               (case dropWhile is_digit rest of
                  p # a # b # _ \<Rightarrow>
                    if p = CHR ''.'' \<and> is_digit a \<and> is_digit b
                    then Some (ds @ [p, a, b]) else None
                | _ \<Rightarrow> None))
          else None)"

text \<open>\<^verbatim>\<open>re.search\<close>: the match at the leftmost position that has one.\<close>

fun re_search_price :: "string \<Rightarrow> string option" where
  "re_search_price [] = None"
| "re_search_price (c # cs) =
     (case match_price_at (c # cs) of
        Some g \<Rightarrow> Some g
      | None \<Rightarrow> re_search_price cs)"

definition parse_price :: "string \<Rightarrow> pyfloat option" where
  "parse_price text =
     (case re_search_price text of Some g \<Rightarrow> Some (py_float g) | None \<Rightarrow> None)"

subsection \<open>Items, snapshots and changed items\<close>

text \<open>
  The snapshot entry \<^verbatim>\<open>{name, size, price, url}\<close>; an item is an entry with its
  \<^verbatim>\<open>key\<close>, a changed item an entry with the \<^verbatim>\<open>old_price\<close>.
\<close>

record entry =
  name :: string
  size' :: string
  price :: pyfloat
  url :: string

record item = entry +
  key :: string

record changed_item = entry +
  old_price :: pyfloat

text \<open>
  A Python \<^verbatim>\<open>dict\<close> with string keys, in insertion order. The state file is taken to hold
  a document of the snapshot's shape, as the data model requires.
\<close>

type_synonym snapshot = "(string \<times> entry) list"

definition dict_get :: "snapshot \<Rightarrow> string \<Rightarrow> entry option" where
  "dict_get d k = map_of d k"

definition dict_set :: "string \<Rightarrow> entry \<Rightarrow> snapshot \<Rightarrow> snapshot" where
  "dict_set k v d = AList.update k v d"

subsection \<open>The extractor\<close>

text \<open>
  What \<^verbatim>\<open>scrape_items\<close> reads of one candidate block: its flattened text, the text of
  the name element and of the price element when the block has one, the texts of its
  heading, emphasis and link elements in document order, and the \<^verbatim>\<open>href\<close> of its first
  link.
\<close>

record card =
  card_text :: string
  name_el :: "string option"
  tag_texts :: "string list"
  price_el :: "string option"
  href :: "string option"

text \<open>The parsed page: the results of the structured selector and of \<^verbatim>\<open>find_all("li")\<close>.\<close>

record soup =
  selected :: "card list"
  all_li :: "card list"

datatype http_reply = NoReply | Reply nat soup

text \<open>
  Library functions whose code is outside the repository are parameters:
  \<^verbatim>\<open>json.dumps\<close> and \<^verbatim>\<open>json.loads\<close> on snapshots (\<open>None\<close> for a document that does not
  parse), \<^verbatim>\<open>urljoin\<close> and the formatting of a float in an f-string.
\<close>

record library =
  json_dumps :: "snapshot \<Rightarrow> string"
  json_loads :: "string \<Rightarrow> snapshot option"
  urljoin :: "string \<Rightarrow> string \<Rightarrow> string"
  float_str :: "pyfloat \<Rightarrow> string"

datatype smtp_step = Connect | StartTLS | Login | Send

datatype error =
  RequestException
| HTTPError nat
| JSONDecodeError
| SMTPException smtp_step

datatype outcome = Done | Raised error

definition block_name :: "card \<Rightarrow> string" where
  "block_name c =
     (case name_el c of
        Some n \<Rightarrow> n
      | None \<Rightarrow>
          (case find (str_in ''Squish'') (tag_texts c) of
             Some n \<Rightarrow> if n = [] then take 80 (card_text c) else n
           | None \<Rightarrow> take 80 (card_text c)))"

definition block_url :: "library \<Rightarrow> card \<Rightarrow> string" where
  "block_url L c =
     (case href c of
        Some h \<Rightarrow> urljoin L SEARCH_URL h
      | None \<Rightarrow> SEARCH_URL)"

text \<open>The text the price is read from: the price element's, else the whole block's.\<close>

definition price_text :: "card \<Rightarrow> string" where
  "price_text c = (case price_el c of Some t \<Rightarrow> t | None \<Rightarrow> card_text c)"

text \<open>The loop of \<^verbatim>\<open>scrape_items\<close> over the product cards, with \<^verbatim>\<open>seen\<close> and \<^verbatim>\<open>items\<close>.\<close>

fun scrape_loop :: "library \<Rightarrow> card list \<Rightarrow> string set \<Rightarrow> item list \<Rightarrow> item list" where
  "scrape_loop L [] seen items = items"
| "scrape_loop L (c # cards) seen items =
     (let text = card_text c in
      if keyword_skip text then scrape_loop L cards seen items
      else
        let nm = block_name c in
        (case is_small_size text of
           None \<Rightarrow> scrape_loop L cards seen items
         | Some sz \<Rightarrow>
             if sz = [] then scrape_loop L cards seen items
             else
               (case parse_price (price_text c) of
                  None \<Rightarrow> scrape_loop L cards seen items
                | Some pr \<Rightarrow>
                    let u = block_url L c; k = u in
                    if k \<in> seen then scrape_loop L cards seen items
                    else scrape_loop L cards (insert k seen)
                           (items @ [\<lparr>name = nm, size' = sz, price = pr, url = u, key = k\<rparr>]))))"

text \<open>\<^verbatim>\<open>soup.select(...) or soup.find_all("li")\<close>: the second list when the first is empty.\<close>

definition product_cards :: "soup \<Rightarrow> card list" where
  "product_cards page = (if selected page \<noteq> [] then selected page else all_li page)"

definition scrape_items :: "library \<Rightarrow> http_reply \<Rightarrow> error + item list" where
  "scrape_items L net =
     (case net of
        NoReply \<Rightarrow> Inl RequestException
      | Reply status page \<Rightarrow>
          if 400 \<le> status \<and> status < 600 then Inl (HTTPError status)
          else Inr (scrape_loop L (product_cards page) {} []))"

text \<open>
  The item that one pass of the loop body builds from a block, when the pass reaches the
  test on \<^verbatim>\<open>seen\<close>; \<open>None\<close> when it leaves by an earlier \<^verbatim>\<open>continue\<close>.
\<close>

definition block_item :: "library \<Rightarrow> card \<Rightarrow> item option" where
  "block_item L c =
     (if keyword_skip (card_text c) then None
      else
        (case is_small_size (card_text c) of
           None \<Rightarrow> None
         | Some sz \<Rightarrow>
             if sz = [] then None
             else
               (case parse_price (price_text c) of
                  None \<Rightarrow> None
                | Some pr \<Rightarrow>
                    Some \<lparr>name = block_name c, size' = sz, price = pr,
                          url = block_url L c, key = block_url L c\<rparr>)))"

text \<open>
  The specification's words for the price pattern: the text contains a dollar sign, one
  digit or more, a point and two digits, next to each other.
\<close>

definition has_dollar_amount :: "string \<Rightarrow> bool" where
  "has_dollar_amount t \<longleftrightarrow>
     (\<exists>pre ds a b post.
        t = pre @ [CHR ''$''] @ ds @ [CHR ''.'', a, b] @ post \<and>
        ds \<noteq> [] \<and> (\<forall>d\<in>set ds. is_digit d) \<and> is_digit a \<and> is_digit b)"

subsection \<open>The world outside the program\<close>

text \<open>
  The files of the working directory, by name, and the trace of what the run did to the
  SMTP server and to the files, in order.
\<close>

record email =
  subject :: string
  msg_from :: string
  msg_to :: string
  body :: string

datatype event =
  SmtpConnect string nat
| SmtpStartTLS
| SmtpLogin string string
| SmtpSend email
| SmtpQuit
| FileWrite string string

record world =
  files :: "string \<rightharpoonup> string"
  trace :: "event list"

fun is_smtp :: "event \<Rightarrow> bool" where
  "is_smtp (FileWrite path doc) = False"
| "is_smtp ev = True"

text \<open>The three environment variables, read once when the module is loaded.\<close>

record env =
  EMAIL_USER :: "string option"
  EMAIL_PASS :: "string option"
  ALERT_TO :: "string option"

subsection \<open>The state store\<close>

text \<open>
  \<^verbatim>\<open>load_state\<close> gives the empty mapping when the state file is absent and raises when
  its text does not parse; \<^verbatim>\<open>save_state\<close> replaces the file. Failures of the file system
  itself (a file that cannot be opened) are outside the model.
\<close>

definition load_state :: "library \<Rightarrow> world \<Rightarrow> error + snapshot" where
  "load_state L w =
     (case files w STATE_FILE of
        None \<Rightarrow> Inr []
      | Some doc \<Rightarrow>
          (case json_loads L doc of
             None \<Rightarrow> Inl JSONDecodeError
           | Some st \<Rightarrow> Inr st))"

definition save_state :: "library \<Rightarrow> snapshot \<Rightarrow> world \<Rightarrow> world" where
  "save_state L st w =
     w\<lparr>files := (files w)(STATE_FILE \<mapsto> json_dumps L st),
       trace := trace w @ [FileWrite STATE_FILE (json_dumps L st)]\<rparr>"

subsection \<open>The notifier\<close>

text \<open>Truth value of an environment variable: unset and empty are both false.\<close>

definition truthy :: "string option \<Rightarrow> bool" where
  "truthy v = (case v of None \<Rightarrow> False | Some s \<Rightarrow> s \<noteq> [])"

definition env_str :: "string option \<Rightarrow> string" where
  "env_str v = (case v of None \<Rightarrow> [] | Some s \<Rightarrow> s)"

definition newline :: string where
  "newline = [CHR 0x0A]"

definition digit_char :: "nat \<Rightarrow> char" where
  "digit_char d = char_of (48 + d)"

fun str_of_nat :: "nat \<Rightarrow> string" where
  "str_of_nat n =
     (if n < 10 then [digit_char n] else str_of_nat (n div 10) @ [digit_char (n mod 10)])"

fun join :: "string \<Rightarrow> string list \<Rightarrow> string" where
  "join sep [] = []"
| "join sep [x] = x"
| "join sep (x # y # ys) = x @ sep @ join sep (y # ys)"

definition format_item :: "library \<Rightarrow> changed_item \<Rightarrow> string" where
  "format_item L ci =
     name ci @ '' ('' @ size' ci @ '')'' @ newline @
     ''Old price: '' @ float_str L (old_price ci) @ newline @
     ''New price: '' @ float_str L (price ci) @ newline @
     ''Link: '' @ url ci @ newline"

definition alert_subject :: "nat \<Rightarrow> string" where
  "alert_subject n =
     ''[Fry'' @ [CHR 0x27] @ ''s] Squishmallow price changes ('' @ str_of_nat n @ '' item(s))''"

text \<open>
  The SMTP session of \<^verbatim>\<open>send_alert\<close>. The server's behaviour is given by the step that
  fails, if one does; leaving the \<^verbatim>\<open>with\<close> block closes the session with QUIT, also when
  a step inside it raised.
\<close>

definition smtp_session ::
  "smtp_step option \<Rightarrow> string \<Rightarrow> string \<Rightarrow> email \<Rightarrow> world \<Rightarrow> outcome \<times> world" where
  "smtp_session fault user pass msg w =
     (if fault = Some Connect then (Raised (SMTPException Connect), w)
      else
        let t1 = trace w @ [SmtpConnect SMTP_SERVER SMTP_PORT] in
        if fault = Some StartTLS
        then (Raised (SMTPException StartTLS), w\<lparr>trace := t1 @ [SmtpQuit]\<rparr>)
        else
          let t2 = t1 @ [SmtpStartTLS] in
          if fault = Some Login
          then (Raised (SMTPException Login), w\<lparr>trace := t2 @ [SmtpQuit]\<rparr>)
          else
            let t3 = t2 @ [SmtpLogin user pass] in
            if fault = Some Send
            then (Raised (SMTPException Send), w\<lparr>trace := t3 @ [SmtpQuit]\<rparr>)
            else (Done, w\<lparr>trace := t3 @ [SmtpSend msg, SmtpQuit]\<rparr>))"

definition send_alert ::
  "library \<Rightarrow> env \<Rightarrow> smtp_step option \<Rightarrow> changed_item list \<Rightarrow> world \<Rightarrow> outcome \<times> world" where
  "send_alert L E fault changed_items w =
     (if changed_items = [] \<or>
         \<not> (truthy (EMAIL_USER E) \<and> truthy (EMAIL_PASS E) \<and> truthy (ALERT_TO E))
      then (Done, w)
      else
        let lines = map (format_item L) changed_items;
            msg = \<lparr>subject = alert_subject (length changed_items),
                   msg_from = env_str (EMAIL_USER E),
                   msg_to = env_str (ALERT_TO E),
                   body = join (newline @ ''---'' @ newline) lines\<rparr>
        in smtp_session fault (env_str (EMAIL_USER E)) (env_str (EMAIL_PASS E)) msg w)"

subsection \<open>The run\<close>

text \<open>The loop of \<^verbatim>\<open>main\<close> over the current items, with \<^verbatim>\<open>new_state\<close> and \<^verbatim>\<open>changed\<close>.\<close>

fun diff_loop ::
  "snapshot \<Rightarrow> item list \<Rightarrow> snapshot \<Rightarrow> changed_item list \<Rightarrow> snapshot \<times> changed_item list" where
  "diff_loop old_state [] new_state changed = (new_state, changed)"
| "diff_loop old_state (it # rest) new_state changed =
     (let k = key it;
          pr = price it;
          new_state' =
            dict_set k \<lparr>name = name it, size' = size' it, price = pr, url = url it\<rparr> new_state
      in case dict_get old_state k of
           None \<Rightarrow> diff_loop old_state rest new_state' changed
         | Some e \<Rightarrow>
             let old_pr = price e in
             if py_ne pr old_pr
             then diff_loop old_state rest new_state'
                    (changed @ [\<lparr>name = name it, size' = size' it, price = pr, url = url it,
                                 old_price = old_pr\<rparr>])
             else diff_loop old_state rest new_state' changed)"

definition main ::
  "library \<Rightarrow> env \<Rightarrow> http_reply \<Rightarrow> smtp_step option \<Rightarrow> world \<Rightarrow> outcome \<times> world" where
  "main L E net fault w =
     (case load_state L w of
        Inl err \<Rightarrow> (Raised err, w)
      | Inr old_state \<Rightarrow>
          (case scrape_items L net of
             Inl err \<Rightarrow> (Raised err, w)
           | Inr current_items \<Rightarrow>
               let (new_state, changed) = diff_loop old_state current_items [] [];
                   (r, w1) = (if old_state \<noteq> [] \<and> changed \<noteq> []
                              then send_alert L E fault changed w
                              else (Done, w))
               in (case r of
                     Raised err \<Rightarrow> (Raised err, w1)
                   | Done \<Rightarrow> (Done, save_state L new_state w1))))"

subsection \<open>An instance for examples\<close>

text \<open>
  A library instance on which the model runs: JSON text with two spaces of indentation
  for snapshots whose strings need no escaping, the parser on the documents of the
  examples, \<^verbatim>\<open>urljoin\<close> on absolute links (the link itself), and the float formatting on
  the prices of the examples.
\<close>

definition quoted :: "string \<Rightarrow> string" where
  "quoted s = CHR 0x22 # s @ [CHR 0x22]"

definition example_float_str :: "pyfloat \<Rightarrow> string" where
  "example_float_str p =
     (if p = Finite 10 then ''10.0'' else if p = Finite (25 / 2) then ''12.5'' else ''15.0'')"

fun example_members :: "snapshot \<Rightarrow> string list" where
  "example_members [] = []"
| "example_members ((k, e) # rest) =
     (''  '' @ quoted k @ '': {'' @ newline @
      ''    '' @ quoted ''name'' @ '': '' @ quoted (name e) @ '','' @ newline @
      ''    '' @ quoted ''size'' @ '': '' @ quoted (size' e) @ '','' @ newline @
      ''    '' @ quoted ''price'' @ '': '' @ example_float_str (price e) @ '','' @ newline @
      ''    '' @ quoted ''url'' @ '': '' @ quoted (url e) @ newline @
      ''  }'') # example_members rest"

definition example_dumps :: "snapshot \<Rightarrow> string" where
  "example_dumps st =
     (if st = [] then ''{}''
      else ''{'' @ newline @ join ('','' @ newline) (example_members st) @ newline @ ''}'')"

definition example_old :: snapshot where
  "example_old =
     [(''https://shop.example/cat'',
       \<lparr>name = ''Squishmallow Cat'', size' = ''8 in'', price = Finite 10,
        url = ''https://shop.example/cat''\<rparr>)]"

definition example_library :: library where
  "example_library =
     \<lparr>json_dumps = example_dumps,
      json_loads = (\<lambda>doc. if doc = ''{}'' then Some []
                           else if doc = example_dumps example_old then Some example_old
                           else None),
      urljoin = (\<lambda>base link. link),
      float_str = example_float_str\<rparr>"

text \<open>Two blocks of a page: a small cat at 12.50 dollars and a dog without a price.\<close>

definition example_cat :: card where
  "example_cat =
     \<lparr>card_text = ''Squishmallow Cat 8 in $12.50'', name_el = Some ''Squishmallow Cat'',
      tag_texts = [''Squishmallow Cat''], price_el = Some ''$12.50'',
      href = Some ''https://shop.example/cat''\<rparr>"

definition example_dog :: card where
  "example_dog =
     \<lparr>card_text = ''Squishmallows Dog 5 in sold out'', name_el = None,
      tag_texts = [''Squishmallows Dog''], price_el = None,
      href = Some ''https://shop.example/dog''\<rparr>"

definition example_env :: env where
  "example_env =
     \<lparr>EMAIL_USER = Some ''me@mail.example'', EMAIL_PASS = Some ''secret'',
      ALERT_TO = Some ''phone@sms.example''\<rparr>"


definition example_cat_again :: card where
  "example_cat_again =
     \<lparr>card_text = ''Squishmallows Cat 8 in now $15.00'', name_el = None,
      tag_texts = [''Squishmallows Cat''], price_el = None,
      href = Some ''https://shop.example/cat''\<rparr>"

definition example_cat_item :: item where
  "example_cat_item =
     \<lparr>name = ''Squishmallow Cat'', size' = ''8 in'', price = Finite (25 / 2),
      url = ''https://shop.example/cat'', key = ''https://shop.example/cat''\<rparr>"

definition example_first_world :: world where
  "example_first_world = \<lparr>files = Map.empty, trace = []\<rparr>"

definition example_later_world :: world where
  "example_later_world =
     \<lparr>files = [STATE_FILE \<mapsto> example_dumps example_old], trace = []\<rparr>"

definition example_page :: http_reply where
  "example_page = Reply 200 \<lparr>selected = [example_cat, example_dog], all_li = []\<rparr>"

definition example_empty_page :: http_reply where
  "example_empty_page = Reply 200 \<lparr>selected = [example_dog], all_li = []\<rparr>"

definition example_changed :: changed_item where
  "example_changed =
     \<lparr>name = ''Squishmallow Cat'', size' = ''8 in'', price = Finite (25 / 2),
      url = ''https://shop.example/cat'', old_price = Finite 10\<rparr>"

definition example_new :: snapshot where
  "example_new =
     [(''https://shop.example/cat'',
       \<lparr>name = ''Squishmallow Cat'', size' = ''8 in'', price = Finite (25 / 2),
        url = ''https://shop.example/cat''\<rparr>)]"

section \<open>Properties\<close>

subsection \<open>Substring containment\<close>

lemma str_in_sublist: "str_in needle hay \<longleftrightarrow> sublist needle hay"
  by (induction hay) (auto simp: sublist_Cons_right)


lemma str_in_shorter: "str_in (a @ b) hay \<Longrightarrow> str_in a hay"
  by (auto simp: str_in_sublist intro: sublist_order.order_trans)

lemma plural_redundant:
  "str_in ''Squishmallows'' t \<Longrightarrow> str_in ''Squishmallow'' t"
  using str_in_shorter [of "''Squishmallow''" "''s''" t] by simp

subsection \<open>Size labels and the price pattern\<close>



lemma match_price_at_Some:
  "match_price_at s = Some g \<Longrightarrow>
     \<exists>ds a b post. s = [CHR ''$''] @ ds @ [CHR ''.'', a, b] @ post \<and> g = ds @ [CHR ''.'', a, b] \<and>
        ds \<noteq> [] \<and> (\<forall>d\<in>set ds. is_digit d) \<and> is_digit a \<and> is_digit b"
proof -
  assume m: "match_price_at s = Some g"
  then obtain rest where s: "s = CHR ''$'' # rest"
    by (auto simp: match_price_at_def split: list.splits if_splits)
  let ?ds = "takeWhile is_digit rest"
  from m s have ne: "?ds \<noteq> []"
    by (auto simp: match_price_at_def Let_def split: list.splits if_splits)
  from m s ne obtain a b post where d: "dropWhile is_digit rest = CHR ''.'' # a # b # post"
    and ab: "is_digit a" "is_digit b" and g: "g = ?ds @ [CHR ''.'', a, b]"
    by (auto simp: match_price_at_def Let_def split: list.splits if_splits)
  have "rest = ?ds @ dropWhile is_digit rest" by simp
  with d have "rest = ?ds @ CHR ''.'' # a # b # post" by simp
  moreover have "\<forall>d\<in>set ?ds. is_digit d" by (auto dest: set_takeWhileD)
  ultimately show ?thesis using s ne ab g by auto
qed

lemma dot_not_digit: "\<not> is_digit CHR ''.''"
  by (simp add: is_digit_def)

lemma match_price_at_intro:
  assumes "ds \<noteq> []" "\<forall>d\<in>set ds. is_digit d" "is_digit a" "is_digit b"
  shows "match_price_at ([CHR ''$''] @ ds @ [CHR ''.'', a, b] @ post) = Some (ds @ [CHR ''.'', a, b])"
proof -
  have t: "takeWhile is_digit (ds @ CHR ''.'' # a # b # post) = ds"
    using assms(2) by (simp add: takeWhile_append2 dot_not_digit)
  have d: "dropWhile is_digit (ds @ CHR ''.'' # a # b # post) = CHR ''.'' # a # b # post"
    using assms(2) by (simp add: dropWhile_append2 dot_not_digit)
  show ?thesis using assms(1,3,4) by (simp add: match_price_at_def t d)
qed

lemma re_search_price_Some:
  "re_search_price t = Some g \<Longrightarrow> has_dollar_amount t"
proof (induction t)
  case Nil
  then show ?case by simp
next
  case (Cons c cs)
  show ?case
  proof (cases "match_price_at (c # cs)")
    case None
    with Cons have "has_dollar_amount cs" by simp
    then obtain pre ds a b post where
      "cs = pre @ [CHR ''$''] @ ds @ [CHR ''.'', a, b] @ post" "ds \<noteq> []"
      "\<forall>d\<in>set ds. is_digit d" "is_digit a" "is_digit b"
      unfolding has_dollar_amount_def by blast
    then have "c # cs = (c # pre) @ [CHR ''$''] @ ds @ [CHR ''.'', a, b] @ post \<and> ds \<noteq> [] \<and>
      (\<forall>d\<in>set ds. is_digit d) \<and> is_digit a \<and> is_digit b" by simp
    then show ?thesis unfolding has_dollar_amount_def by blast
  next
    case (Some g')
    from match_price_at_Some [OF this] obtain ds a b post where
      "c # cs = [] @ [CHR ''$''] @ ds @ [CHR ''.'', a, b] @ post" "ds \<noteq> []"
      "\<forall>d\<in>set ds. is_digit d" "is_digit a" "is_digit b"
      by auto
    then show ?thesis unfolding has_dollar_amount_def by blast
  qed
qed

lemma re_search_price_append:
  assumes "ds \<noteq> []" "\<forall>d\<in>set ds. is_digit d" "is_digit a" "is_digit b"
  shows "re_search_price (pre @ [CHR ''$''] @ ds @ [CHR ''.'', a, b] @ post) \<noteq> None"
proof (induction pre)
  case Nil
  show ?case using match_price_at_intro [OF assms, of post] by simp
next
  case (Cons p pre)
  then show ?case by (cases "match_price_at (p # pre @ [CHR ''$''] @ ds @ [CHR ''.'', a, b] @ post)") auto
qed

lemma re_search_price_None: "re_search_price t = None \<longleftrightarrow> \<not> has_dollar_amount t"
proof
  assume "re_search_price t = None"
  show "\<not> has_dollar_amount t"
  proof
    assume "has_dollar_amount t"
    then obtain pre ds a b post where
      "t = pre @ [CHR ''$''] @ ds @ [CHR ''.'', a, b] @ post" "ds \<noteq> []"
      "\<forall>d\<in>set ds. is_digit d" "is_digit a" "is_digit b"
      unfolding has_dollar_amount_def by blast
    with re_search_price_append [of ds a b pre post] \<open>re_search_price t = None\<close>
    show False by simp
  qed
next
  assume "\<not> has_dollar_amount t"
  then show "re_search_price t = None"
    using re_search_price_Some by (cases "re_search_price t") auto
qed

lemma parse_price_None: "parse_price t = None \<longleftrightarrow> \<not> has_dollar_amount t"
  by (simp add: parse_price_def re_search_price_None [symmetric] split: option.splits)

text \<open>
  Containment is containment of substrings: a label is found inside a longer size, and
  the price pattern inside an amount with more decimals.
\<close>

lemma sixteen_inches: "is_small_size ''Squishmallow 16 in'' = Some ''6 in''"
  by (simp add: is_small_size_def SMALL_SIZES_def)

lemma three_decimals: "parse_price ''$1.234'' = Some (py_float ''1.23'')"
  by (simp add: parse_price_def match_price_at_def is_digit_def)

subsection \<open>The loop of the extractor\<close>

lemma scrape_loop_step:
  "scrape_loop L (c # cs) seen items =
     (case block_item L c of
        None \<Rightarrow> scrape_loop L cs seen items
      | Some it \<Rightarrow>
          if key it \<in> seen then scrape_loop L cs seen items
          else scrape_loop L cs (insert (key it) seen) (items @ [it]))"
  by (auto simp: block_item_def Let_def split: option.splits)

declare scrape_loop.simps(2) [simp del]

lemma scrape_loop_acc:
  "scrape_loop L cs seen items = items @ scrape_loop L cs seen []"
proof (induction cs arbitrary: seen items)
  case Nil
  show ?case by simp
next
  case (Cons c cs)
  show ?case
  proof (cases "block_item L c")
    case None
    then show ?thesis using Cons [of seen items] by (simp only: scrape_loop_step option.case)
  next
    case (Some it)
    show ?thesis
    proof (cases "key it \<in> seen")
      case True
      then show ?thesis using Some Cons [of seen items]
        by (simp only: scrape_loop_step option.case if_True)
    next
      case False
      have "scrape_loop L (c # cs) seen items = scrape_loop L cs (insert (key it) seen) (items @ [it])"
        using Some False by (simp only: scrape_loop_step option.case if_False)
      also have "\<dots> = (items @ [it]) @ scrape_loop L cs (insert (key it) seen) []"
        by (rule Cons)
      also have "\<dots> = items @ scrape_loop L cs (insert (key it) seen) [it]"
        using Cons [of "insert (key it) seen" "[it]"] by simp
      also have "\<dots> = items @ scrape_loop L (c # cs) seen []"
        using Some False by (simp only: scrape_loop_step option.case if_False append_Nil)
      finally show ?thesis .
    qed
  qed
qed

lemma scrape_loop_seen_skip:
  "block_item L c = Some it \<Longrightarrow> key it \<in> seen \<Longrightarrow>
   scrape_loop L (mid @ c # post) seen items = scrape_loop L (mid @ post) seen items"
proof (induction mid arbitrary: seen items)
  case Nil
  then show ?case by (simp only: append_Nil scrape_loop_step option.case if_True)
next
  case (Cons m mid)
  show ?case
  proof (cases "block_item L m")
    case None
    then show ?thesis using Cons.IH [OF Cons.prems]
      by (simp only: append_Cons scrape_loop_step option.case)
  next
    case (Some im)
    show ?thesis
    proof (cases "key im \<in> seen")
      case True
      then show ?thesis using Some Cons.IH [OF Cons.prems]
        by (simp only: append_Cons scrape_loop_step option.case if_True)
    next
      case False
      have "key it \<in> insert (key im) seen" using Cons.prems(2) by simp
      from Cons.IH [OF Cons.prems(1) this] show ?thesis using Some False
        by (simp only: append_Cons scrape_loop_step option.case if_False)
    qed
  qed
qed

lemma scrape_loop_none_skip:
  "block_item L c = None \<Longrightarrow>
   scrape_loop L (pre @ c # post) seen items = scrape_loop L (pre @ post) seen items"
proof (induction pre arbitrary: seen items)
  case Nil
  then show ?case by (simp only: append_Nil scrape_loop_step option.case)
next
  case (Cons p pre)
  show ?case
    using Cons.IH [OF Cons.prems]
    by (simp only: append_Cons scrape_loop_step split: option.splits if_splits)
qed

lemma scrape_loop_dup_skip:
  "block_item L c0 = Some it0 \<Longrightarrow> block_item L c = Some it \<Longrightarrow> key it = key it0 \<Longrightarrow>
   scrape_loop L (pre @ c0 # mid @ c # post) seen items =
   scrape_loop L (pre @ c0 # mid @ post) seen items"
proof (induction pre arbitrary: seen items)
  case Nil
  show ?case
  proof (cases "key it0 \<in> seen")
    case True
    with Nil have "key it \<in> seen" by simp
    from scrape_loop_seen_skip [OF Nil(2) this] show ?thesis
      using Nil(1) True by (simp only: append_Nil scrape_loop_step option.case if_True)
  next
    case False
    have "key it \<in> insert (key it0) seen" using Nil(3) by simp
    from scrape_loop_seen_skip [OF Nil(2) this] show ?thesis
      using Nil(1) False by (simp only: append_Nil scrape_loop_step option.case if_False)
  qed
next
  case (Cons p pre)
  show ?case
    using Cons.IH [OF Cons.prems]
    by (simp only: append_Cons scrape_loop_step split: option.splits if_splits)
qed

lemma scrape_loop_origin:
  "it \<in> set (scrape_loop L cs seen []) \<Longrightarrow>
     \<exists>c\<in>set cs. block_item L c = Some it \<and> key it \<notin> seen"
proof (induction cs arbitrary: seen)
  case Nil
  then show ?case by simp
next
  case (Cons c cs)
  show ?case
  proof (cases "block_item L c")
    case None
    with Cons.prems have "it \<in> set (scrape_loop L cs seen [])"
      by (simp only: scrape_loop_step option.case)
    from Cons.IH [OF this] show ?thesis by auto
  next
    case (Some ic)
    show ?thesis
    proof (cases "key ic \<in> seen")
      case True
      with Some Cons.prems have "it \<in> set (scrape_loop L cs seen [])"
        by (simp only: scrape_loop_step option.case if_True)
      from Cons.IH [OF this] show ?thesis by auto
    next
      case False
      with Some Cons.prems have "it \<in> set (scrape_loop L cs (insert (key ic) seen) [] @ [])
           \<or> it \<in> set (scrape_loop L cs (insert (key ic) seen) ([] @ [ic]))"
        by (simp only: scrape_loop_step option.case if_False) simp
      then have "it \<in> set ([ic] @ scrape_loop L cs (insert (key ic) seen) [])"
        using scrape_loop_acc [of L cs "insert (key ic) seen" "[ic]"] by auto
      then consider "it = ic" | "it \<in> set (scrape_loop L cs (insert (key ic) seen) [])" by auto
      then show ?thesis
      proof cases
        case 1
        then show ?thesis using Some False by auto
      next
        case 2
        from Cons.IH [OF this] show ?thesis by auto
      qed
    qed
  qed
qed

lemma scrape_loop_distinct:
  "distinct (map key (scrape_loop L cs seen []))"
proof (induction cs arbitrary: seen)
  case Nil
  show ?case by simp
next
  case (Cons c cs)
  show ?case
  proof (cases "block_item L c")
    case None
    then show ?thesis using Cons [of seen] by (simp only: scrape_loop_step option.case)
  next
    case (Some ic)
    show ?thesis
    proof (cases "key ic \<in> seen")
      case True
      then show ?thesis using Some Cons [of seen]
        by (simp only: scrape_loop_step option.case if_True)
    next
      case False
      have eq: "scrape_loop L (c # cs) seen [] = ic # scrape_loop L cs (insert (key ic) seen) []"
        using Some False scrape_loop_acc [of L cs "insert (key ic) seen" "[ic]"]
        by (simp only: scrape_loop_step option.case if_False append_Nil) simp
      have "key ic \<notin> key ` set (scrape_loop L cs (insert (key ic) seen) [])"
        using scrape_loop_origin [of _ L cs "insert (key ic) seen"] by force
      then show ?thesis using Cons [of "insert (key ic) seen"] eq by simp
    qed
  qed
qed

lemma scrape_loop_find:
  "find (\<lambda>it. key it = k) (scrape_loop L cs seen []) =
     (if k \<in> seen then None else find (\<lambda>it. key it = k) (List.map_filter (block_item L) cs))"
proof (induction cs arbitrary: seen)
  case Nil
  show ?case by (simp add: List.map_filter_simps)
next
  case (Cons c cs)
  show ?case
  proof (cases "block_item L c")
    case None
    then show ?thesis using Cons [of seen]
      by (simp only: scrape_loop_step option.case List.map_filter_simps)
  next
    case (Some ic)
    show ?thesis
    proof (cases "key ic \<in> seen")
      case True
      then show ?thesis using Some Cons [of seen]
        by (simp only: scrape_loop_step option.case if_True List.map_filter_simps) auto
    next
      case False
      have eq: "scrape_loop L (c # cs) seen [] = ic # scrape_loop L cs (insert (key ic) seen) []"
        using Some False scrape_loop_acc [of L cs "insert (key ic) seen" "[ic]"]
        by (simp only: scrape_loop_step option.case if_False append_Nil) simp
      show ?thesis using Some False Cons [of "insert (key ic) seen"]
        by (auto simp: eq List.map_filter_simps)
    qed
  qed
qed

subsection \<open>The loop of the run\<close>

lemma diff_loop_acc:
  "diff_loop old its new changed =
     (fst (diff_loop old its new []), changed @ snd (diff_loop old its new []))"
proof (induction its arbitrary: new changed)
  case Nil
  show ?case by simp
next
  case (Cons it its)
  let ?new = "dict_set (key it) \<lparr>name = name it, size' = size' it, price = price it, url = url it\<rparr> new"
  let ?ci = "\<lparr>name = name it, size' = size' it, price = price it, url = url it,
               old_price = price (the (dict_get old (key it)))\<rparr>"
  show ?case
  proof (cases "dict_get old (key it)")
    case None
    then show ?thesis using Cons [of ?new changed] by (simp add: Let_def)
  next
    case (Some e)
    show ?thesis
    proof (cases "py_ne (price it) (price e)")
      case True
      then show ?thesis
        using Some Cons [of ?new "changed @ [?ci]"] Cons [of ?new "[?ci]"]
        by (simp add: Let_def)
    next
      case False
      then show ?thesis using Some Cons [of ?new changed] by (simp add: Let_def)
    qed
  qed
qed

lemma diff_loop_changed:
  "snd (diff_loop old its new []) =
     List.map_filter
       (\<lambda>it. case dict_get old (key it) of
                None \<Rightarrow> None
              | Some e \<Rightarrow>
                  if py_ne (price it) (price e)
                  then Some \<lparr>name = name it, size' = size' it, price = price it, url = url it,
                             old_price = price e\<rparr>
                  else None) its"
proof (induction its arbitrary: new)
  case Nil
  show ?case by (simp add: List.map_filter_simps)
next
  case (Cons it its)
  let ?new = "dict_set (key it) \<lparr>name = name it, size' = size' it, price = price it, url = url it\<rparr> new"
  show ?case
  proof (cases "dict_get old (key it)")
    case None
    then show ?thesis using Cons [of ?new] by (simp add: Let_def List.map_filter_simps)
  next
    case (Some e)
    show ?thesis
    proof (cases "py_ne (price it) (price e)")
      case True
      then show ?thesis
        using Some Cons [of ?new]
          diff_loop_acc [of old its ?new "[\<lparr>name = name it, size' = size' it, price = price it, url = url it,
               old_price = price e\<rparr>]"]
        by (simp add: Let_def List.map_filter_simps)
    next
      case False
      then show ?thesis using Some Cons [of ?new] by (simp add: Let_def List.map_filter_simps)
    qed
  qed
qed

lemma diff_loop_fst_Cons:
  "fst (diff_loop old (it # its) new changed) =
     fst (diff_loop old its
            (dict_set (key it)
               \<lparr>name = name it, size' = size' it, price = price it, url = url it\<rparr> new) [])"
proof -
  let ?new = "dict_set (key it) \<lparr>name = name it, size' = size' it, price = price it, url = url it\<rparr> new"
  have indep: "fst (diff_loop old its ?new ch) = fst (diff_loop old its ?new [])" for ch
    using diff_loop_acc [of old its ?new ch] by simp
  show ?thesis
  proof (cases "dict_get old (key it)")
    case None
    then show ?thesis using indep [of changed] by (simp add: Let_def)
  next
    case (Some e)
    then show ?thesis
      using indep [of changed]
        indep [of "changed @ [\<lparr>name = name it, size' = size' it, price = price it, url = url it,
                 old_price = price e\<rparr>]"]
      by (simp add: Let_def)
  qed
qed

lemma diff_loop_new_origin:
  "dict_get (fst (diff_loop old its new changed)) k = Some e \<Longrightarrow>
     dict_get new k = Some e \<or>
     (\<exists>it\<in>set its. key it = k \<and>
        e = \<lparr>name = name it, size' = size' it, price = price it, url = url it\<rparr>)"
proof (induction its arbitrary: new changed)
  case Nil
  then show ?case by simp
next
  case (Cons it its)
  let ?new = "dict_set (key it) \<lparr>name = name it, size' = size' it, price = price it, url = url it\<rparr> new"
  from Cons.prems have "dict_get (fst (diff_loop old its ?new [])) k = Some e"
    by (simp only: diff_loop_fst_Cons)
  from Cons.IH [OF this] show ?case
    by (auto simp: dict_get_def dict_set_def update_conv' split: if_splits)
qed

lemma diff_loop_new_keys:
  "dict_get (fst (diff_loop old its new changed)) k \<noteq> None \<longleftrightarrow>
     dict_get new k \<noteq> None \<or> k \<in> key ` set its"
proof (induction its arbitrary: new changed)
  case Nil
  show ?case by simp
next
  case (Cons it its)
  let ?new = "dict_set (key it) \<lparr>name = name it, size' = size' it, price = price it, url = url it\<rparr> new"
  have "dict_get ?new k \<noteq> None \<longleftrightarrow> dict_get new k \<noteq> None \<or> k = key it"
    by (auto simp: dict_get_def dict_set_def update_conv')
  then show ?case
    using Cons [of ?new "[]"] by (simp only: diff_loop_fst_Cons) auto
qed

subsection \<open>The notifier and the run\<close>

lemma smtp_session_effect:
  "smtp_session fault user pass msg w = (r, w1) \<Longrightarrow>
     files w1 = files w \<and>
     (\<exists>evs. trace w1 = trace w @ evs \<and> (\<forall>ev\<in>set evs. is_smtp ev)) \<and>
     (r = Done \<or> (\<exists>s. r = Raised (SMTPException s)))"
  by (auto simp: smtp_session_def Let_def split: if_splits)

lemma send_alert_effect:
  "send_alert L E fault changed w = (r, w1) \<Longrightarrow>
     files w1 = files w \<and>
     (\<exists>evs. trace w1 = trace w @ evs \<and> (\<forall>ev\<in>set evs. is_smtp ev)) \<and>
     (r = Done \<or> (\<exists>s. r = Raised (SMTPException s)))"
  unfolding send_alert_def Let_def
  by (auto split: if_splits dest!: smtp_session_effect)

lemma send_alert_guard:
  "changed = [] \<or> \<not> truthy (EMAIL_USER E) \<or> \<not> truthy (EMAIL_PASS E) \<or> \<not> truthy (ALERT_TO E) \<Longrightarrow>
     send_alert L E fault changed w = (Done, w)"
  by (auto simp: send_alert_def)

lemma main_run:
  assumes "load_state L w = Inr old" "scrape_items L net = Inr its"
  shows "main L E net fault w =
     (if old \<noteq> [] \<and> snd (diff_loop old its [] []) \<noteq> []
      then (case send_alert L E fault (snd (diff_loop old its [] [])) w of
              (Done, w1) \<Rightarrow> (Done, save_state L (fst (diff_loop old its [] [])) w1)
            | (Raised err, w1) \<Rightarrow> (Raised err, w1))
      else (Done, save_state L (fst (diff_loop old its [] [])) w))"
  using assms by (auto simp: main_def split: prod.splits outcome.splits)

lemma main_load_fails: "load_state L w = Inl err \<Longrightarrow> main L E net fault w = (Raised err, w)"
  by (simp add: main_def)

lemma main_scrape_fails:
  "load_state L w = Inr old \<Longrightarrow> scrape_items L net = Inl err \<Longrightarrow>
     main L E net fault w = (Raised err, w)"
  by (simp add: main_def)

lemma save_state_effect:
  "files (save_state L st w) = (files w)(STATE_FILE \<mapsto> json_dumps L st) \<and>
   trace (save_state L st w) = trace w @ [FileWrite STATE_FILE (json_dumps L st)] \<and>
   filter is_smtp (trace (save_state L st w)) = filter is_smtp (trace w)"
  by (simp add: save_state_def)

lemma load_state_errors: "load_state L w = Inl err \<Longrightarrow> err = JSONDecodeError"
  by (auto simp: load_state_def split: option.splits)

lemma scrape_items_errors:
  "scrape_items L net = Inl err \<Longrightarrow> err = RequestException \<or> (\<exists>st. err = HTTPError st)"
  by (auto simp: scrape_items_def split: http_reply.splits if_splits)

lemma main_outcome:
  assumes "main L E net fault w = (r, w')"
  shows "(\<exists>err. r = Raised err \<and> w' = w \<and> (load_state L w = Inl err \<or>
            (\<exists>old. load_state L w = Inr old \<and> scrape_items L net = Inl err))) \<or>
         (\<exists>old its. load_state L w = Inr old \<and> scrape_items L net = Inr its \<and>
            \<not> (old \<noteq> [] \<and> snd (diff_loop old its [] []) \<noteq> []) \<and>
            r = Done \<and> w' = save_state L (fst (diff_loop old its [] [])) w) \<or>
         (\<exists>old its r1 w1. load_state L w = Inr old \<and> scrape_items L net = Inr its \<and>
            old \<noteq> [] \<and> snd (diff_loop old its [] []) \<noteq> [] \<and>
            send_alert L E fault (snd (diff_loop old its [] [])) w = (r1, w1) \<and>
            ((r1 = Done \<and> r = Done \<and> w' = save_state L (fst (diff_loop old its [] [])) w1) \<or>
             (\<exists>s. r1 = Raised (SMTPException s) \<and> r = r1 \<and> w' = w1)))"
proof (cases "load_state L w")
  case (Inl err)
  with assms show ?thesis by (simp add: main_load_fails)
next
  case (Inr old)
  note l = this
  show ?thesis
  proof (cases "scrape_items L net")
    case (Inl err)
    with assms l show ?thesis by (simp add: main_scrape_fails)
  next
    case (Inr its)
    note s = this
    show ?thesis
    proof (cases "old \<noteq> [] \<and> snd (diff_loop old its [] []) \<noteq> []")
      case False
      with assms l s show ?thesis using main_run [OF l s, of E fault] by auto
    next
      case True
      obtain r1 w1 where sa: "send_alert L E fault (snd (diff_loop old its [] [])) w = (r1, w1)"
        by (cases "send_alert L E fault (snd (diff_loop old its [] [])) w") auto
      from send_alert_effect [OF sa] have "r1 = Done \<or> (\<exists>s. r1 = Raised (SMTPException s))"
        by simp
      then show ?thesis
        using assms True l s sa main_run [OF l s, of E fault] by auto
    qed
  qed
qed

lemma main_alert_outcome:
  assumes "load_state L w = Inr old" "scrape_items L net = Inr its"
    "old \<noteq> []" "snd (diff_loop old its [] []) \<noteq> []"
  shows "fst (main L E net fault w) = fst (send_alert L E fault (snd (diff_loop old its [] [])) w)"
  using main_run [OF assms(1,2), of E fault] assms(3,4)
  by (auto split: prod.splits outcome.splits)

lemma round_double_range: "round_double q \<noteq> NaN \<and> round_double q \<noteq> NegInf"
  by (simp add: round_double_def Let_def split: prod.splits)

lemma parse_price_range: "parse_price t = Some p \<Longrightarrow> p \<noteq> NaN \<and> p \<noteq> NegInf"
  by (auto simp: parse_price_def py_float_def Let_def round_double_range split: option.splits)

lemma block_item_Some:
  "block_item L c = Some it \<Longrightarrow>
     \<not> keyword_skip (card_text c) \<and> is_small_size (card_text c) = Some (size' it) \<and>
     parse_price (price_text c) = Some (price it) \<and> key it = block_url L c \<and>
     url it = block_url L c \<and> name it = block_name c"
  by (auto simp: block_item_def split: if_splits option.splits)

lemma block_item_None:
  "keyword_skip (card_text c) \<or> is_small_size (card_text c) = None \<or>
   parse_price (price_text c) = None \<Longrightarrow> block_item L c = None"
  by (auto simp: block_item_def split: option.splits)

lemma set_map_filter:
  "set (List.map_filter f xs) = {y. \<exists>x\<in>set xs. f x = Some y}"
  by (induction xs) (auto simp: List.map_filter_simps split: option.splits)

subsection \<open>The examples, evaluated\<close>

lemma py_float_12_50: "py_float ''12.50'' = Finite (25 / 2)"
  by code_simp

lemma py_float_15_00: "py_float ''15.00'' = Finite 15"
  by code_simp

lemma parse_price_cat: "parse_price ''$12.50'' = Some (Finite (25 / 2))"
  by (simp add: parse_price_def match_price_at_def is_digit_def py_float_12_50)

lemma parse_price_cat_again:
  "parse_price ''Squishmallows Cat 8 in now $15.00'' = Some (Finite 15)"
  by (simp add: parse_price_def match_price_at_def is_digit_def py_float_15_00)

lemma parse_price_dog: "parse_price ''Squishmallows Dog 5 in sold out'' = None"
  by (simp add: parse_price_def match_price_at_def)

lemma block_item_cat: "block_item example_library example_cat = Some example_cat_item"
  by (simp add: block_item_def example_cat_def example_cat_item_def keyword_skip_def
      is_small_size_def SMALL_SIZES_def parse_price_cat price_text_def block_name_def
      block_url_def example_library_def)

lemma block_item_cat_again:
  "block_item example_library example_cat_again =
     Some \<lparr>name = ''Squishmallows Cat'', size' = ''8 in'', price = Finite 15,
           url = ''https://shop.example/cat'', key = ''https://shop.example/cat''\<rparr>"
  by (simp add: block_item_def example_cat_again_def keyword_skip_def
      is_small_size_def SMALL_SIZES_def parse_price_cat_again price_text_def block_name_def
      block_url_def example_library_def)

lemma block_item_dog: "block_item example_library example_dog = None"
  by (simp add: block_item_def example_dog_def keyword_skip_def is_small_size_def
      SMALL_SIZES_def price_text_def parse_price_dog)



subsection \<open>The example runs\<close>

lemma scrape_items_example_page:
  "scrape_items example_library example_page = Inr [example_cat_item]"
  by (simp add: example_page_def scrape_items_def product_cards_def scrape_loop_step
      block_item_cat block_item_dog example_cat_item_def)

lemma scrape_items_example_empty_page:
  "scrape_items example_library example_empty_page = Inr []"
  by (simp add: example_empty_page_def scrape_items_def product_cards_def scrape_loop_step
      block_item_dog)

lemma load_state_first: "load_state example_library example_first_world = Inr []"
  by (simp add: load_state_def example_first_world_def)

lemma example_doc_nonempty: "example_dumps example_old \<noteq> ''{}''"
  by (simp add: example_dumps_def example_old_def newline_def)

lemma load_state_later: "load_state example_library example_later_world = Inr example_old"
  by (simp add: load_state_def example_later_world_def example_library_def example_doc_nonempty)

lemma diff_loop_example:
  "diff_loop example_old [example_cat_item] [] [] = (example_new, [example_changed])"
  by (simp add: example_old_def example_cat_item_def example_new_def example_changed_def
      dict_get_def dict_set_def py_ne_def Let_def)

lemma diff_loop_first:
  "diff_loop [] [example_cat_item] [] [] = (example_new, [])"
  by (simp add: example_cat_item_def example_new_def dict_get_def dict_set_def Let_def)

lemma truthy_example_env:
  "truthy (EMAIL_USER example_env) \<and> truthy (EMAIL_PASS example_env) \<and>
   truthy (ALERT_TO example_env)"
  by (simp add: truthy_def example_env_def)

lemma send_alert_login_fails:
  "send_alert example_library example_env (Some Login) [example_changed] example_later_world =
     (Raised (SMTPException Login),
      example_later_world\<lparr>trace := [SmtpConnect SMTP_SERVER SMTP_PORT, SmtpStartTLS, SmtpQuit]\<rparr>)"
  using truthy_example_env
  by (simp add: send_alert_def smtp_session_def Let_def example_later_world_def)

lemma main_login_fails:
  "main example_library example_env example_page (Some Login) example_later_world =
     (Raised (SMTPException Login),
      example_later_world\<lparr>trace := [SmtpConnect SMTP_SERVER SMTP_PORT, SmtpStartTLS, SmtpQuit]\<rparr>)"
  using main_run [OF load_state_later scrape_items_example_page, of example_env "Some Login"]
  unfolding diff_loop_example
  by (simp add: send_alert_login_fails example_old_def)

lemma main_first_run:
  "main example_library example_env example_page None example_first_world =
     (Done, save_state example_library example_new example_first_world)"
  using main_run [OF load_state_first scrape_items_example_page, of example_env None]
  unfolding diff_loop_first by simp

lemma main_empty_page:
  "main example_library example_env example_empty_page None example_later_world =
     (Done, save_state example_library [] example_later_world)"
  using main_run [OF load_state_later scrape_items_example_empty_page, of example_env None]
  by simp

section \<open>The claims\<close>

text \<open>
  C1. The changed list of the run holds, in the order of the current items, one changed
  item for each item whose key is in the old snapshot with a stored price that differs
  from the current one, and nothing else; the changed item carries the old and the new
  price. An item whose key is absent from the old snapshot gives none. On finite prices
  the comparison is inequality of the numbers.
\<close>

theorem diff_records_changed:
  "snd (diff_loop old its [] []) =
     List.map_filter
       (\<lambda>it. case dict_get old (key it) of
                None \<Rightarrow> None
              | Some e \<Rightarrow>
                  if py_ne (price it) (price e)
                  then Some \<lparr>name = name it, size' = size' it, price = price it, url = url it,
                             old_price = price e\<rparr>
                  else None) its \<and>
   (ci \<in> set (snd (diff_loop old its [] [])) \<longleftrightarrow>
      (\<exists>it\<in>set its. \<exists>e. dict_get old (key it) = Some e \<and> py_ne (price it) (price e) \<and>
         ci = \<lparr>name = name it, size' = size' it, price = price it, url = url it,
                old_price = price e\<rparr>)) \<and>
   py_ne (Finite x) (Finite y) = (x \<noteq> y)"
proof -
  have 1: "snd (diff_loop old its [] []) =
     List.map_filter
       (\<lambda>it. case dict_get old (key it) of
                None \<Rightarrow> None
              | Some e \<Rightarrow>
                  if py_ne (price it) (price e)
                  then Some \<lparr>name = name it, size' = size' it, price = price it, url = url it,
                             old_price = price e\<rparr>
                  else None) its"
    by (rule diff_loop_changed)
  have 2: "ci \<in> set (snd (diff_loop old its [] [])) \<longleftrightarrow>
      (\<exists>it\<in>set its. \<exists>e. dict_get old (key it) = Some e \<and> py_ne (price it) (price e) \<and>
         ci = \<lparr>name = name it, size' = size' it, price = price it, url = url it,
                old_price = price e\<rparr>)"
    unfolding 1 set_map_filter by (auto split: option.splits if_splits)
  have 3: "py_ne (Finite x) (Finite y) = (x \<noteq> y)" by (simp add: py_ne_def)
  from 1 2 3 show ?thesis by blast
qed

theorem diff_records_changed_witness:
  "snd (diff_loop example_old
          [\<lparr>name = ''Squishmallow Cat'', size' = ''8 in'', price = Finite (25 / 2),
            url = ''https://shop.example/cat'', key = ''https://shop.example/cat''\<rparr>,
           \<lparr>name = ''Squishmallow Dog'', size' = ''5 in'', price = Finite 5,
            url = ''https://shop.example/dog'', key = ''https://shop.example/dog''\<rparr>]
          [] []) =
     [\<lparr>name = ''Squishmallow Cat'', size' = ''8 in'', price = Finite (25 / 2),
       url = ''https://shop.example/cat'', old_price = Finite 10\<rparr>]"
  using diff_records_changed [of example_old
      "[\<lparr>name = ''Squishmallow Cat'', size' = ''8 in'', price = Finite (25 / 2),
         url = ''https://shop.example/cat'', key = ''https://shop.example/cat''\<rparr>,
        \<lparr>name = ''Squishmallow Dog'', size' = ''5 in'', price = Finite 5,
         url = ''https://shop.example/dog'', key = ''https://shop.example/dog''\<rparr>]"]
  by (simp add: List.map_filter_simps dict_get_def py_ne_def example_old_def)

text \<open>
  C2. A run that loads the empty snapshot and whose extraction succeeds sends no alert,
  whatever the extraction holds: it ends normally with no SMTP event added to the trace
  and with the state file holding the new snapshot. In every run, SMTP activity or an
  SMTP failure occurs only when the old snapshot is non-empty and the changed list is
  non-empty; and when both are non-empty the run ends as the notifier does on the changed
  list.
\<close>

theorem first_run_suppression:
  "(load_state L w = Inr [] \<longrightarrow> scrape_items L net = Inr its \<longrightarrow>
      (\<exists>w1. main L E net fault w = (Done, w1) \<and>
            filter is_smtp (trace w1) = filter is_smtp (trace w) \<and>
            files w1 STATE_FILE = Some (json_dumps L (fst (diff_loop [] its [] []))))) \<and>
   (main L E net fault w = (r, w') \<longrightarrow>
    (filter is_smtp (trace w') \<noteq> filter is_smtp (trace w) \<or>
     (\<exists>s. r = Raised (SMTPException s))) \<longrightarrow>
      (\<exists>old cur. load_state L w = Inr old \<and> scrape_items L net = Inr cur \<and>
         old \<noteq> [] \<and> snd (diff_loop old cur [] []) \<noteq> [])) \<and>
   (load_state L w = Inr old0 \<longrightarrow> scrape_items L net = Inr cur0 \<longrightarrow>
    old0 \<noteq> [] \<longrightarrow> snd (diff_loop old0 cur0 [] []) \<noteq> [] \<longrightarrow>
      fst (main L E net fault w) =
      fst (send_alert L E fault (snd (diff_loop old0 cur0 [] [])) w))"
proof (intro conjI impI)
  assume l: "load_state L w = Inr []" and s: "scrape_items L net = Inr its"
  have "main L E net fault w = (Done, save_state L (fst (diff_loop [] its [] [])) w)"
    using main_run [OF l s, of E fault] by simp
  then show "\<exists>w1. main L E net fault w = (Done, w1) \<and>
            filter is_smtp (trace w1) = filter is_smtp (trace w) \<and>
            files w1 STATE_FILE = Some (json_dumps L (fst (diff_loop [] its [] [])))"
    by (simp add: save_state_effect)
next
  assume m: "main L E net fault w = (r, w')"
    and a: "filter is_smtp (trace w') \<noteq> filter is_smtp (trace w) \<or>
            (\<exists>s. r = Raised (SMTPException s))"
  from main_outcome [OF m]
  consider
    (abort) err where "r = Raised err" "w' = w"
      "load_state L w = Inl err \<or> (\<exists>old. load_state L w = Inr old \<and> scrape_items L net = Inl err)"
  | (quiet) old cur where "load_state L w = Inr old" "scrape_items L net = Inr cur"
      "r = Done" "w' = save_state L (fst (diff_loop old cur [] [])) w"
  | (alert) old cur where "load_state L w = Inr old" "scrape_items L net = Inr cur"
      "old \<noteq> []" "snd (diff_loop old cur [] []) \<noteq> []"
    by blast
  then show "\<exists>old cur. load_state L w = Inr old \<and> scrape_items L net = Inr cur \<and>
         old \<noteq> [] \<and> snd (diff_loop old cur [] []) \<noteq> []"
  proof cases
    case abort
    from abort(3) have "\<nexists>s. err = SMTPException s"
      using load_state_errors scrape_items_errors by (metis error.distinct(5,9,11))
    with a abort show ?thesis by simp
  next
    case quiet
    with a show ?thesis by (simp add: save_state_effect)
  next
    case alert
    then show ?thesis by blast
  qed
next
  assume "load_state L w = Inr old0" "scrape_items L net = Inr cur0"
    "old0 \<noteq> []" "snd (diff_loop old0 cur0 [] []) \<noteq> []"
  then show "fst (main L E net fault w) =
      fst (send_alert L E fault (snd (diff_loop old0 cur0 [] [])) w)"
    by (rule main_alert_outcome)
qed

theorem first_run_suppression_witness:
  "load_state example_library example_first_world = Inr [] \<and>
   scrape_items example_library example_page = Inr [example_cat_item] \<and>
   (\<exists>w1. main example_library example_env example_page None example_first_world = (Done, w1) \<and>
      filter is_smtp (trace w1) = filter is_smtp (trace example_first_world) \<and>
      files w1 STATE_FILE =
        Some (json_dumps example_library (fst (diff_loop [] [example_cat_item] [] [])))) \<and>
   main example_library example_env example_page (Some Login) example_later_world =
     (Raised (SMTPException Login),
      example_later_world\<lparr>trace := [SmtpConnect SMTP_SERVER SMTP_PORT, SmtpStartTLS, SmtpQuit]\<rparr>) \<and>
   load_state example_library example_later_world = Inr example_old \<and>
   example_old \<noteq> [] \<and>
   snd (diff_loop example_old [example_cat_item] [] []) \<noteq> [] \<and>
   fst (main example_library example_env example_page (Some Login) example_later_world) =
     fst (send_alert example_library example_env (Some Login)
            (snd (diff_loop example_old [example_cat_item] [] [])) example_later_world)"
proof -
  have 1: "example_old \<noteq> []" by (simp add: example_old_def)
  have 2: "snd (diff_loop example_old [example_cat_item] [] []) \<noteq> []"
    unfolding diff_loop_example by simp
  from first_run_suppression [where L = example_library and w = example_first_world
      and net = example_page and its = "[example_cat_item]" and E = example_env and fault = None]
    first_run_suppression [where L = example_library and w = example_later_world
      and net = example_page and E = example_env and fault = "Some Login"
      and r = "Raised (SMTPException Login)"
      and w' = "example_later_world\<lparr>trace := [SmtpConnect SMTP_SERVER SMTP_PORT, SmtpStartTLS, SmtpQuit]\<rparr>"
      and ?old0.0 = example_old and ?cur0.0 = "[example_cat_item]"]
    load_state_first load_state_later scrape_items_example_page main_login_fails 1 2
  show ?thesis by blast
qed

text \<open>
  C3. The run talks to the SMTP server before it writes the state file: the trace of a
  run is the earlier trace, then SMTP events, then at most the one write of the state
  file, and no write when the run does not end normally. So in every run in which the
  notifier raises, the files are those from before the run.
\<close>

theorem alert_before_save:
  "main L E net fault w = (r, w') \<Longrightarrow>
     (\<exists>evs tail. trace w' = trace w @ evs @ tail \<and> (\<forall>ev\<in>set evs. is_smtp ev) \<and>
        (tail = [] \<or> (\<exists>doc. tail = [FileWrite STATE_FILE doc])) \<and>
        (r \<noteq> Done \<longrightarrow> tail = [])) \<and>
     ((\<exists>s. r = Raised (SMTPException s)) \<longrightarrow> files w' = files w)"
proof -
  assume m: "main L E net fault w = (r, w')"
  from main_outcome [OF m]
  consider
    (abort) err where "r = Raised err" "w' = w"
  | (quiet) old cur where "r = Done" "w' = save_state L (fst (diff_loop old cur [] [])) w"
  | (sent) old cur w1 where
      "send_alert L E fault (snd (diff_loop old cur [] [])) w = (Done, w1)"
      "r = Done" "w' = save_state L (fst (diff_loop old cur [] [])) w1"
  | (failed) old cur s where
      "send_alert L E fault (snd (diff_loop old cur [] [])) w = (Raised (SMTPException s), w')"
      "r = Raised (SMTPException s)"
    by blast
  then show ?thesis
  proof cases
    case abort
    then have "trace w' = trace w @ [] @ [] \<and> (\<forall>ev\<in>set []. is_smtp ev)" by simp
    with abort show ?thesis by blast
  next
    case quiet
    then have "trace w' = trace w @ [] @ [FileWrite STATE_FILE (json_dumps L (fst (diff_loop old cur [] [])))]"
      by (simp add: save_state_effect)
    with quiet show ?thesis by fastforce
  next
    case sent
    from send_alert_effect [OF sent(1)] obtain evs where
      "trace w1 = trace w @ evs" "\<forall>ev\<in>set evs. is_smtp ev" by blast
    with sent have "trace w' = trace w @ evs @ [FileWrite STATE_FILE (json_dumps L (fst (diff_loop old cur [] [])))]
        \<and> (\<forall>ev\<in>set evs. is_smtp ev)"
      by (simp add: save_state_effect)
    with sent show ?thesis by fastforce
  next
    case failed
    from send_alert_effect [OF failed(1)] obtain evs where
      "files w' = files w" "trace w' = trace w @ evs @ []" "\<forall>ev\<in>set evs. is_smtp ev" by auto
    with failed show ?thesis by blast
  qed
qed

theorem alert_before_save_witness:
  "main example_library example_env example_page (Some Login) example_later_world =
     (Raised (SMTPException Login),
      example_later_world\<lparr>trace := [SmtpConnect SMTP_SERVER SMTP_PORT, SmtpStartTLS, SmtpQuit]\<rparr>) \<and>
   files (example_later_world\<lparr>trace := [SmtpConnect SMTP_SERVER SMTP_PORT, SmtpStartTLS, SmtpQuit]\<rparr>) =
     files example_later_world"
  using alert_before_save [OF main_login_fails] main_login_fails by blast

text \<open>
  C4. The notifier returns without sending anything and without raising when the list of
  changed items is empty or one of \<^verbatim>\<open>EMAIL_USER\<close>, \<^verbatim>\<open>EMAIL_PASS\<close>, \<^verbatim>\<open>ALERT_TO\<close> is unset:
  the outcome is a normal return and the world, its trace included, is unchanged.
\<close>

theorem send_alert_guarded:
  "changed = [] \<or> EMAIL_USER E = None \<or> EMAIL_PASS E = None \<or> ALERT_TO E = None \<Longrightarrow>
     send_alert L E fault changed w = (Done, w)"
  by (rule send_alert_guard) (auto simp: truthy_def)

theorem send_alert_guarded_witness:
  "ALERT_TO (example_env\<lparr>ALERT_TO := None\<rparr>) = None \<and>
   [example_changed] \<noteq> [] \<and>
   send_alert example_library (example_env\<lparr>ALERT_TO := None\<rparr>) None [example_changed]
     example_first_world = (Done, example_first_world)"
  using send_alert_guarded [of "[example_changed]" "example_env\<lparr>ALERT_TO := None\<rparr>"
      example_library None example_first_world]
  by simp

text \<open>
  C5. A price is parsed exactly from the texts that contain a dollar sign, digits, a point
  and two digits. A block whose price text (the price element's text, else the block's)
  contains no such amount is excluded: the extractor's output is the same as without the
  block. Hence every key of the new snapshot has the price parsed from the price text of
  a block of the page, a number that is not NaN.
\<close>

theorem unparseable_price_excluded:
  "(parse_price t = None \<longleftrightarrow> \<not> has_dollar_amount t) \<and>
   (\<not> has_dollar_amount (price_text c) \<longrightarrow>
      scrape_loop L (pre @ c # post) seen items = scrape_loop L (pre @ post) seen items) \<and>
   (scrape_items L net = Inr its \<longrightarrow>
    dict_get (fst (diff_loop old its [] [])) k = Some e \<longrightarrow>
      (\<exists>st page b. net = Reply st page \<and> b \<in> set (product_cards page) \<and>
         k = block_url L b \<and> has_dollar_amount (price_text b) \<and>
         parse_price (price_text b) = Some (price e)) \<and>
      price e \<noteq> NaN)"
proof (intro conjI impI)
  show "parse_price t = None \<longleftrightarrow> \<not> has_dollar_amount t" by (rule parse_price_None)
next
  assume "\<not> has_dollar_amount (price_text c)"
  then have "block_item L c = None" by (simp add: block_item_None parse_price_None)
  then show "scrape_loop L (pre @ c # post) seen items = scrape_loop L (pre @ post) seen items"
    by (rule scrape_loop_none_skip)
next
  assume s: "scrape_items L net = Inr its"
    and d: "dict_get (fst (diff_loop old its [] [])) k = Some e"
  from s obtain st page where net: "net = Reply st page"
    and its: "its = scrape_loop L (product_cards page) {} []"
    by (auto simp: scrape_items_def split: http_reply.splits if_splits)
  from diff_loop_new_origin [OF d] obtain it where it: "it \<in> set its" "key it = k"
    and e: "e = \<lparr>name = name it, size' = size' it, price = price it, url = url it\<rparr>"
    by (auto simp: dict_get_def)
  from it(1) its scrape_loop_origin [of it L "product_cards page" "{}"]
  obtain b where b: "b \<in> set (product_cards page)" "block_item L b = Some it" by blast
  from block_item_Some [OF b(2)] have p: "parse_price (price_text b) = Some (price it)"
    and kb: "key it = block_url L b" by simp_all
  from p have h: "has_dollar_amount (price_text b)"
    using parse_price_None [of "price_text b"] by auto
  from e have pe: "price e = price it" by simp
  show "\<exists>st page b. net = Reply st page \<and> b \<in> set (product_cards page) \<and>
         k = block_url L b \<and> has_dollar_amount (price_text b) \<and>
         parse_price (price_text b) = Some (price e)"
    using net b(1) kb it(2) h p pe by auto
  show "price e \<noteq> NaN" using parse_price_range [OF p] pe by simp
qed

theorem unparseable_price_excluded_witness:
  "\<not> has_dollar_amount (price_text example_dog) \<and>
   scrape_loop example_library ([example_cat] @ example_dog # []) {} [] =
     scrape_loop example_library ([example_cat] @ []) {} [] \<and>
   scrape_items example_library
     (Reply 200 \<lparr>selected = [example_cat, example_dog], all_li = []\<rparr>) = Inr [example_cat_item] \<and>
   dict_get (fst (diff_loop example_old [example_cat_item] [] [])) ''https://shop.example/cat'' =
     Some \<lparr>name = ''Squishmallow Cat'', size' = ''8 in'', price = Finite (25 / 2),
           url = ''https://shop.example/cat''\<rparr> \<and>
   parse_price (price_text example_cat) = Some (Finite (25 / 2))"
proof -
  have 1: "\<not> has_dollar_amount (price_text example_dog)"
    using parse_price_dog parse_price_None [of "price_text example_dog"]
    by (simp add: price_text_def example_dog_def)
  have 2: "scrape_items example_library
     (Reply 200 \<lparr>selected = [example_cat, example_dog], all_li = []\<rparr>) = Inr [example_cat_item]"
    by (simp add: scrape_items_def product_cards_def scrape_loop_step block_item_cat
        block_item_dog example_cat_item_def)
  have 3: "dict_get (fst (diff_loop example_old [example_cat_item] [] [])) ''https://shop.example/cat'' =
     Some \<lparr>name = ''Squishmallow Cat'', size' = ''8 in'', price = Finite (25 / 2),
           url = ''https://shop.example/cat''\<rparr>"
    by (simp add: example_old_def example_cat_item_def dict_get_def dict_set_def py_ne_def Let_def)
  have 4: "parse_price (price_text example_cat) = Some (Finite (25 / 2))"
    by (simp add: price_text_def example_cat_def parse_price_cat)
  from unparseable_price_excluded [of _ example_dog example_library "[example_cat]" "[]" "{}" "[]"
      "Reply 200 \<lparr>selected = [example_cat, example_dog], all_li = []\<rparr>" "[example_cat_item]"
      example_old "''https://shop.example/cat''"
      "\<lparr>name = ''Squishmallow Cat'', size' = ''8 in'', price = Finite (25 / 2),
           url = ''https://shop.example/cat''\<rparr>"] 1 2 3 4
  show ?thesis by blast
qed



text \<open>
  C7. The dedup key of an accepted block is its resolved URL. The keys of the extractor's
  output are pairwise distinct, the item that the output holds for a key is the item of
  the first accepted block with that key, and a later accepted block with the key of an
  earlier one is discarded: the output is the same as without it.
\<close>

theorem dedup_first_wins:
  "distinct (map key (scrape_loop L cards {} [])) \<and>
   find (\<lambda>i. key i = k) (scrape_loop L cards {} []) =
     find (\<lambda>i. key i = k) (List.map_filter (block_item L) cards) \<and>
   (block_item L c = Some it \<longrightarrow> key it = block_url L c) \<and>
   (block_item L c0 = Some it0 \<longrightarrow> block_item L c = Some it \<longrightarrow> key it = key it0 \<longrightarrow>
      scrape_loop L (pre @ c0 # mid @ c # post) {} [] =
      scrape_loop L (pre @ c0 # mid @ post) {} [])"
proof (intro conjI impI)
  show "distinct (map key (scrape_loop L cards {} []))" by (rule scrape_loop_distinct)
next
  show "find (\<lambda>i. key i = k) (scrape_loop L cards {} []) =
     find (\<lambda>i. key i = k) (List.map_filter (block_item L) cards)"
    by (simp add: scrape_loop_find)
next
  assume "block_item L c = Some it"
  then show "key it = block_url L c" by (simp add: block_item_Some)
next
  assume "block_item L c0 = Some it0" "block_item L c = Some it" "key it = key it0"
  then show "scrape_loop L (pre @ c0 # mid @ c # post) {} [] =
      scrape_loop L (pre @ c0 # mid @ post) {} []"
    by (rule scrape_loop_dup_skip)
qed

theorem dedup_first_wins_witness:
  "block_item example_library example_cat = Some example_cat_item \<and>
   block_item example_library example_cat_again =
     Some \<lparr>name = ''Squishmallows Cat'', size' = ''8 in'', price = Finite 15,
           url = ''https://shop.example/cat'', key = ''https://shop.example/cat''\<rparr> \<and>
   key example_cat_item = block_url example_library example_cat_again \<and>
   scrape_loop example_library ([] @ example_cat # [example_dog] @ example_cat_again # []) {} [] =
     [example_cat_item]"
proof -
  have 1: "key \<lparr>name = ''Squishmallows Cat'', size' = ''8 in'', price = Finite 15,
           url = ''https://shop.example/cat'', key = ''https://shop.example/cat''\<rparr> =
        key example_cat_item"
    by (simp add: example_cat_item_def)
  have 2: "scrape_loop example_library ([] @ example_cat # [example_dog] @ []) {} [] =
     [example_cat_item]"
    by (simp add: scrape_loop_step block_item_cat block_item_dog example_cat_item_def)
  from dedup_first_wins [of example_library _ _ example_cat_again
      "\<lparr>name = ''Squishmallows Cat'', size' = ''8 in'', price = Finite 15,
           url = ''https://shop.example/cat'', key = ''https://shop.example/cat''\<rparr>"
      example_cat example_cat_item "[]" "[example_dog]" "[]"]
    block_item_cat block_item_cat_again 1 2
  show ?thesis by (simp add: example_cat_item_def)
qed



text \<open>
  C9. Saving sets the state file to the serialization of the given snapshot, whatever the
  file held. Every run that ends normally has loaded an old snapshot and extracted the
  current items, and leaves in the state file the serialization of the new snapshot, whose
  keys are exactly the keys of the current items; with no current item that is the
  serialization of the empty mapping.
\<close>

theorem save_overwrites:
  "files (save_state L st w) STATE_FILE = Some (json_dumps L st) \<and>
   (main L E net fault w = (Done, w') \<longrightarrow>
      (\<exists>old cur. load_state L w = Inr old \<and> scrape_items L net = Inr cur \<and>
         files w' STATE_FILE = Some (json_dumps L (fst (diff_loop old cur [] []))) \<and>
         (\<forall>k. dict_get (fst (diff_loop old cur [] [])) k \<noteq> None \<longleftrightarrow> k \<in> key ` set cur) \<and>
         (cur = [] \<longrightarrow> files w' STATE_FILE = Some (json_dumps L []))))"
proof (intro conjI impI)
  show "files (save_state L st w) STATE_FILE = Some (json_dumps L st)"
    by (simp add: save_state_effect)
next
  assume m: "main L E net fault w = (Done, w')"
  from main_outcome [OF m] obtain old cur w1 where
    l: "load_state L w = Inr old" and s: "scrape_items L net = Inr cur"
    and w': "w' = save_state L (fst (diff_loop old cur [] [])) w1"
    by auto
  have f: "files w' STATE_FILE = Some (json_dumps L (fst (diff_loop old cur [] [])))"
    using w' by (simp add: save_state_effect)
  have k: "\<forall>k. dict_get (fst (diff_loop old cur [] [])) k \<noteq> None \<longleftrightarrow> k \<in> key ` set cur"
    using diff_loop_new_keys [of old cur "[]" "[]"] by (simp add: dict_get_def)
  have e: "cur = [] \<longrightarrow> files w' STATE_FILE = Some (json_dumps L [])"
    using f by auto
  from l s f k e show "\<exists>old cur. load_state L w = Inr old \<and> scrape_items L net = Inr cur \<and>
         files w' STATE_FILE = Some (json_dumps L (fst (diff_loop old cur [] []))) \<and>
         (\<forall>k. dict_get (fst (diff_loop old cur [] [])) k \<noteq> None \<longleftrightarrow> k \<in> key ` set cur) \<and>
         (cur = [] \<longrightarrow> files w' STATE_FILE = Some (json_dumps L []))"
    by blast
qed

theorem save_overwrites_witness:
  "files example_later_world STATE_FILE = Some (example_dumps example_old) \<and>
   main example_library example_env example_empty_page None example_later_world =
     (Done, save_state example_library [] example_later_world) \<and>
   scrape_items example_library example_empty_page = Inr [] \<and>
   files (save_state example_library [] example_later_world) STATE_FILE = Some ''{}''"
proof -
  have 1: "files example_later_world STATE_FILE = Some (example_dumps example_old)"
    by (simp add: example_later_world_def)
  have 2: "json_dumps example_library [] = ''{}''"
    by (simp add: example_library_def example_dumps_def)
  from save_overwrites [of example_library "[]" example_later_world example_env
      example_empty_page None "save_state example_library [] example_later_world"]
    main_empty_page scrape_items_example_empty_page 1 2
  show ?thesis by auto
qed

text \<open>
  C10. The keyword test of the extractor is the test for the singular form alone: a block
  passes the filter exactly when its flattened text contains \<^verbatim>\<open>Squishmallow\<close>, and every
  text that contains the plural contains the singular, so the second test is redundant.
\<close>

theorem keyword_test_singular:
  "(\<not> keyword_skip t) = str_in ''Squishmallow'' t \<and>
   (str_in ''Squishmallows'' t \<longrightarrow> str_in ''Squishmallow'' t)"
  unfolding keyword_skip_def using plural_redundant by blast

theorem keyword_test_singular_witness:
  "str_in ''Squishmallows'' ''Two Squishmallows'' \<and>
   str_in ''Squishmallow'' ''Two Squishmallows'' \<and>
   \<not> keyword_skip ''Two Squishmallows''"
  using keyword_test_singular [of "''Two Squishmallows''"] by simp

end
